theory Spec2Isabelle
  imports Main "HOL-Library.Word" "HOL-Library.AList"
begin

unbundle bit_operations_syntax

section \<open>Common declarations\<close>

text \<open>
  The error codes raised by the functions modelled here (\<open>PODOFO_RAISE_ERROR\<close> and
  \<open>PODOFO_RAISE_ERROR_INFO\<close> throw a \<open>PdfError\<close> carrying one of them). A raise is the
  \<open>Inl\<close> branch of a sum, or the \<open>Some\<close> of the first component where the state of the
  object is returned next to it.
\<close>

datatype PdfErrorCode =
    IOError
  | ValueOutOfRange
  | InvalidEnumValue
  | InternalLogic
  | NotImplemented

text \<open>\<open>size_t\<close> and \<open>ssize_t\<close> are 64-bit; \<open>ssize_t\<close> is read with \<open>sint\<close>.\<close>

type_synonym size_t = "64 word"
type_synonym ssize_t = "64 word"

section \<open>StreamDevice.cpp\<close>

subsection \<open>StreamDevice::SeekPosition\<close>

text \<open>
  \<open>SeekDirection\<close> is an \<open>enum class\<close>; a value outside the three enumerators reaches
  the \<open>default\<close> label of the switch, and is the fourth constructor here.
\<close>

datatype SeekDirection = Begin | Current | End | SeekDirection_invalid nat

text \<open>
  Lines 96-143. The casts \<open>(size_t)offset\<close> and \<open>(size_t)-offset\<close> keep the bits, so
  they are the word itself and its negation; \<open>curpos + (size_t)offset\<close> and
  \<open>devlen + offset\<close> wrap modulo \<open>2 ^ 64\<close>.
\<close>

definition SeekPosition :: "size_t \<Rightarrow> size_t \<Rightarrow> ssize_t \<Rightarrow> SeekDirection \<Rightarrow> PdfErrorCode + size_t" where
  "SeekPosition curpos devlen offset direction =
     (case direction of
        Begin \<Rightarrow>
          if sint offset < 0 then Inl IOError
          else if offset > devlen then Inl ValueOutOfRange
          else Inr offset
      | Current \<Rightarrow>
          if offset = 0 then Inr curpos
          else if sint offset > 0 then
            (if offset > devlen - curpos then Inl ValueOutOfRange
             else Inr (curpos + offset))
          else
            (if - offset > curpos then Inl ValueOutOfRange
             else Inr (curpos + offset))
      | End \<Rightarrow>
          if sint offset > 0 then Inl IOError
          else if - offset > devlen then Inl ValueOutOfRange
          else Inr (devlen + offset)
      | SeekDirection_invalid v \<Rightarrow> Inl InvalidEnumValue)"

text \<open>
  The seek-bounds law in the words of the specification, over the integers, with the one
  change the code forces: a negative offset from \<open>Begin\<close> is an \<open>IOError\<close>, as a positive
  offset from \<open>End\<close> is.
\<close>

definition SeekPosition_spec :: "int \<Rightarrow> int \<Rightarrow> int \<Rightarrow> SeekDirection \<Rightarrow> PdfErrorCode + int" where
  "SeekPosition_spec c l off direction =
     (case direction of
        Begin \<Rightarrow>
          if off < 0 then Inl IOError
          else if off > l then Inl ValueOutOfRange
          else Inr off
      | Current \<Rightarrow>
          if off = 0 then Inr c
          else if off > 0 \<and> off > l - c then Inl ValueOutOfRange
          else if off < 0 \<and> - off > c then Inl ValueOutOfRange
          else Inr (c + off)
      | End \<Rightarrow>
          if off > 0 then Inl IOError
          else if - off > l then Inl ValueOutOfRange
          else Inr (l + off)
      | SeekDirection_invalid v \<Rightarrow> Inl InvalidEnumValue)"

subsection \<open>NullStreamDevice\<close>

record NullStreamDevice =
  null_Length :: size_t
  null_Position :: size_t

text \<open>Lines 561-565: \<open>peek\<close> is \<open>const\<close>; it yields the return value and \<open>ch\<close>.\<close>

definition NullStreamDevice_peek :: "NullStreamDevice \<Rightarrow> bool \<times> 8 word" where
  "NullStreamDevice_peek d = (null_Length d \<noteq> null_Position d, 0)"

text \<open>Lines 599-607: the return value, \<open>ch\<close> and the device after the call.\<close>

definition NullStreamDevice_readChar :: "NullStreamDevice \<Rightarrow> bool \<times> 8 word \<times> NullStreamDevice" where
  "NullStreamDevice_readChar d =
     (if null_Position d = null_Length d then (False, 0, d)
      else (False, 0, d\<lparr>null_Position := null_Position d + 1\<rparr>))"

subsection \<open>SpanStreamDevice\<close>

record SpanStreamDevice =
  m_buffer :: "8 word list"
  m_Length :: size_t
  m_Position :: size_t

text \<open>Lines 664-667.\<close>

definition SpanStreamDevice_Eof :: "SpanStreamDevice \<Rightarrow> bool" where
  "SpanStreamDevice_Eof d = (m_Position d = m_Length d)"

text \<open>\<open>std::memcpy(dst + off, src, n)\<close> on byte lists.\<close>

definition memcpy :: "8 word list \<Rightarrow> nat \<Rightarrow> 8 word list \<Rightarrow> nat \<Rightarrow> 8 word list" where
  "memcpy dst off src n = take off dst @ take n src @ drop (off + n) dst"

text \<open>
  Lines 674-681. The sum \<open>m_Position + size\<close> is a \<open>size_t\<close> sum and wraps. The raise
  comes before any assignment, so the device is returned as it was, next to the error.
\<close>

definition SpanStreamDevice_writeBuffer ::
    "SpanStreamDevice \<Rightarrow> 8 word list \<Rightarrow> size_t \<Rightarrow> PdfErrorCode option \<times> SpanStreamDevice" where
  "SpanStreamDevice_writeBuffer d buffer sz =
     (if m_Position d + sz > m_Length d then (Some ValueOutOfRange, d)
      else (None, d\<lparr>m_buffer := memcpy (m_buffer d) (unat (m_Position d)) buffer (unat sz),
                     m_Position := m_Position d + sz\<rparr>))"

subsection \<open>createFile\<close>

text \<open>
  \<open>FileMode\<close> is an \<open>enum class\<close> with six enumerators; any other value reaches the
  \<open>default\<close> label.
\<close>

datatype FileMode = CreateNew | Create | Open | OpenOrCreate | Truncate | Append
  | FileMode_invalid nat

text \<open>
  Modelled from the spec: the declaration of \<open>DeviceAccess\<close> is in StreamDevice.h, which is
  not among the sources. It is a flag-like enumeration, \<open>ReadWrite\<close> being \<open>Read | Write\<close>,
  combined and tested with the bitwise operators; the switches of \<open>createFile\<close> have a
  \<open>default\<close> label for every other value.
\<close>

type_synonym DeviceAccess = "32 word"

definition Read :: DeviceAccess where "Read = 1"
definition Write :: DeviceAccess where "Write = 2"
definition ReadWrite :: DeviceAccess where "ReadWrite = Read OR Write"

text \<open>
  Lines 724-850: the switch that computes \<open>cmode\<close>. \<open>exists\<close> is what
  \<open>fs::exists(fs::u8path(filepath))\<close> returns at the time of the call.
\<close>

definition createFile_cmode :: "bool \<Rightarrow> FileMode \<Rightarrow> DeviceAccess \<Rightarrow> PdfErrorCode + string" where
  "createFile_cmode exists mode access =
     (case mode of
        CreateNew \<Rightarrow>
          if access = Read then Inl IOError
          else if exists then Inl IOError
          else if access = Write then Inr ''w''
          else if access = ReadWrite then Inr ''w+''
          else Inl InvalidEnumValue
      | Create \<Rightarrow>
          if access = Read then Inl IOError
          else if access = Write then Inr ''w''
          else if access = ReadWrite then Inr ''w+''
          else Inl InvalidEnumValue
      | Open \<Rightarrow>
          if (access AND Write) \<noteq> 0 \<and> \<not> exists then Inl IOError
          else if access = Read then Inr ''r''
          else if access = Write then Inr ''w''
          else if access = ReadWrite then Inr ''r+''
          else Inl InvalidEnumValue
      | OpenOrCreate \<Rightarrow>
          if access = Read then Inl IOError
          else if access = Write then Inr ''w''
          else if access = ReadWrite then Inr (if exists then ''r+'' else ''w+'')
          else Inl InvalidEnumValue
      | Truncate \<Rightarrow>
          if access = Read then Inl IOError
          else if \<not> exists then Inl IOError
          else if access = Write then Inr ''w''
          else if access = ReadWrite then Inr ''w+''
          else Inl InvalidEnumValue
      | Append \<Rightarrow>
          if access = Read then Inl IOError
          else if access = Write then Inr ''a''
          else if access = ReadWrite then Inr ''a+''
          else Inl InvalidEnumValue
      | FileMode_invalid v \<Rightarrow> Inl InvalidEnumValue)"

text \<open>
  Lines 851-859. \<open>win32\<close> is the preprocessor symbol \<open>_WIN32\<close>. \<open>fopen\<close> is the host's
  \<open>utls::fopen\<close> on \<open>filepath\<close>, a function of the mode string; \<open>None\<close> is the null
  pointer.
\<close>

definition createFile :: "bool \<Rightarrow> (string \<Rightarrow> 'file option) \<Rightarrow> bool \<Rightarrow> FileMode \<Rightarrow> DeviceAccess
    \<Rightarrow> PdfErrorCode + 'file" where
  "createFile win32 fopen exists mode access =
     (case createFile_cmode exists mode access of
        Inl e \<Rightarrow> Inl e
      | Inr cmode \<Rightarrow>
          (case fopen (if win32 then cmode @ ''b'' else cmode) of
             None \<Rightarrow> Inl IOError
           | Some stream \<Rightarrow> Inr stream))"

section \<open>PdfEncodingMap.cpp\<close>

subsection \<open>Data\<close>

text \<open>
  \<open>PdfCharCode\<close> is a code (\<open>unsigned\<close>) with its size in bytes (\<open>unsigned char\<close>);
  \<open>codeUnit = { }\<close> value-initialises both fields. \<open>CodePointSpan\<close> and \<open>unicodeview\<close>
  are sequences of \<open>char32_t\<close>; \<open>CodePointSpan(cp)\<close> is the span of the one code point.
\<close>

record PdfCharCode =
  Code :: "32 word"
  CodeSpaceSize :: "8 word"

definition PdfCharCode_empty :: PdfCharCode where
  "PdfCharCode_empty = \<lparr>Code = 0, CodeSpaceSize = 0\<rparr>"

type_synonym CodePointSpan = "32 word list"
type_synonym unicodeview = "32 word list"

record PdfEncodingLimits =
  MinCodeSize :: "8 word"
  MaxCodeSize :: "8 word"
  FirstChar :: PdfCharCode
  LastChar :: PdfCharCode

subsection \<open>PdfEncodingMap::TryGetCharCode on a span\<close>

text \<open>
  The virtual functions the method calls, as the subclass provides them. Each lookup takes
  the incoming value of the out-parameter \<open>codeUnit\<close> and yields the returned flag with
  the value it leaves there, or raises.
\<close>

record PdfEncodingMap_virtuals =
  tryGetCharCode :: "32 word \<Rightarrow> PdfCharCode \<Rightarrow> PdfErrorCode + bool \<times> PdfCharCode"
  tryGetCharCodeSpan :: "unicodeview \<Rightarrow> PdfCharCode \<Rightarrow> PdfErrorCode + bool \<times> PdfCharCode"
  HasLigaturesSupport :: bool

text \<open>Lines 77-82 and 202-205: what the base class provides for two of them.\<close>

definition PdfEncodingMap_tryGetCharCodeSpan ::
    "unicodeview \<Rightarrow> PdfCharCode \<Rightarrow> PdfErrorCode + bool \<times> PdfCharCode" where
  "PdfEncodingMap_tryGetCharCodeSpan ligature codeUnit = Inl NotImplemented"

definition PdfEncodingMap_HasLigaturesSupport :: bool where
  "PdfEncodingMap_HasLigaturesSupport = False"

text \<open>Lines 89-104.\<close>

definition TryGetCharCode ::
    "PdfEncodingMap_virtuals \<Rightarrow> unicodeview \<Rightarrow> PdfCharCode \<Rightarrow> PdfErrorCode + bool \<times> PdfCharCode" where
  "TryGetCharCode this codePoints codeUnit =
     (if length codePoints = 1 then tryGetCharCode this (codePoints ! 0) codeUnit
      else if length codePoints = 0 \<or> \<not> HasLigaturesSupport this then Inr (False, PdfCharCode_empty)
      else tryGetCharCodeSpan this codePoints codeUnit)"

subsection \<open>PdfEncodingMap::tryGetNextCodePoints\<close>

text \<open>
  Lines 218-254. The text cursor is the list of the bytes from \<open>it\<close> to \<open>end\<close>; the
  iterator after the call is the list of the bytes left. \<open>tryGetCodePoints\<close> is the virtual
  lookup, \<open>None\<close> when it returns false. The result is \<open>None\<close> when the function returns
  false (\<open>it\<close> is then not moved, and the caller clears the outputs), and otherwise the
  new \<open>it\<close>, \<open>codeUnit\<close> and \<open>codePoints\<close>. \<open>code\<close> is an \<open>unsigned\<close> and \<open>i\<close> an
  \<open>unsigned char\<close>: both wrap.
\<close>

fun tryGetNextCodePoints_loop ::
    "(PdfCharCode \<Rightarrow> CodePointSpan option) \<Rightarrow> PdfEncodingLimits \<Rightarrow> 8 word list \<Rightarrow> 32 word \<Rightarrow> 8 word
     \<Rightarrow> (8 word list \<times> PdfCharCode \<times> CodePointSpan) option" where
  "tryGetNextCodePoints_loop tryGetCodePoints limits [] code i = None"
| "tryGetNextCodePoints_loop tryGetCodePoints limits (b # cur) code i =
     (if i > MaxCodeSize limits then None
      else
        let code' = push_bit 8 code OR ucast b;
            codeUnit = \<lparr>Code = code', CodeSpaceSize = i\<rparr>
        in if i < MinCodeSize limits then
             tryGetNextCodePoints_loop tryGetCodePoints limits cur code' (i + 1)
           else
             (case tryGetCodePoints codeUnit of
                None \<Rightarrow> tryGetNextCodePoints_loop tryGetCodePoints limits cur code' (i + 1)
              | Some codePoints \<Rightarrow> Some (cur, codeUnit, codePoints)))"

definition tryGetNextCodePoints ::
    "(PdfCharCode \<Rightarrow> CodePointSpan option) \<Rightarrow> PdfEncodingLimits \<Rightarrow> 8 word list
     \<Rightarrow> (8 word list \<times> PdfCharCode \<times> CodePointSpan) option" where
  "tryGetNextCodePoints tryGetCodePoints limits it =
     tryGetNextCodePoints_loop tryGetCodePoints limits it 0 1"

text \<open>The code that a sequence of bytes accumulates to: big-endian, in 32 bits.\<close>

definition code_of_bytes :: "8 word list \<Rightarrow> 32 word" where
  "code_of_bytes bs = foldl (\<lambda>code b. push_bit 8 code OR ucast b) 0 bs"

text \<open>The char code that the first \<open>n\<close> bytes of the input make, of size \<open>n\<close>.\<close>

definition codeUnit_at :: "8 word list \<Rightarrow> nat \<Rightarrow> PdfCharCode" where
  "codeUnit_at bs n = \<lparr>Code = code_of_bytes (take n bs), CodeSpaceSize = of_nat n\<rparr>"

text \<open>
  The lookup of a map whose entries fill two codespace ranges, \<open>00-7F\<close> of width 1 and
  \<open>8140-FEFE\<close> of width 2 (each code mapped to the code point of the same number), and
  the limits of that map.
\<close>

definition two_codespaces_lookup :: "PdfCharCode \<Rightarrow> CodePointSpan option" where
  "two_codespaces_lookup codeUnit =
     (if CodeSpaceSize codeUnit = 1 \<and> Code codeUnit \<le> 0x7F then Some [Code codeUnit]
      else if CodeSpaceSize codeUnit = 2 \<and> 0x8140 \<le> Code codeUnit \<and> Code codeUnit \<le> 0xFEFE
        then Some [Code codeUnit]
      else None)"

definition two_codespaces_limits :: PdfEncodingLimits where
  "two_codespaces_limits =
     \<lparr>MinCodeSize = 1, MaxCodeSize = 2,
      FirstChar = \<lparr>Code = 0, CodeSpaceSize = 1\<rparr>,
      LastChar = \<lparr>Code = 0xFEFE, CodeSpaceSize = 2\<rparr>\<rparr>"

subsection \<open>PdfBuiltInEncoding\<close>

text \<open>
  The object: the forward table that the subclass returns from \<open>GetToUnicodeTable\<close> (an
  array of 256 \<open>char32_t\<close>) and the member \<open>m_EncodingTable\<close>, a hash map from code points
  to bytes, here an association list with one pair for each key. The constructor leaves
  the map empty.
\<close>

record PdfBuiltInEncoding =
  GetToUnicodeTable :: "32 word list"
  m_EncodingTable :: "(32 word \<times> 8 word) list"

text \<open>Lines 602-614. \<open>m[k] = v\<close> inserts the key or overwrites its value.\<close>

function initEncodingTable_loop :: "32 word list \<Rightarrow> nat \<Rightarrow> (32 word \<times> 8 word) list \<Rightarrow> (32 word \<times> 8 word) list" where
  "initEncodingTable_loop cpUnicodeTable i m =
     (if i < 256 then
        initEncodingTable_loop cpUnicodeTable (i + 1) (AList.update (cpUnicodeTable ! i) (of_nat i) m)
      else m)"
  by pat_completeness auto
termination
  by (relation "measure (\<lambda>(t, i, m). 256 - i)") auto

declare initEncodingTable_loop.simps [simp del]

definition initEncodingTable :: "PdfBuiltInEncoding \<Rightarrow> PdfBuiltInEncoding" where
  "initEncodingTable this =
     (if m_EncodingTable this \<noteq> [] then this
      else this\<lparr>m_EncodingTable :=
             initEncodingTable_loop (GetToUnicodeTable this) 0 (m_EncodingTable this)\<rparr>)"

text \<open>
  Lines 616-628: the returned flag, \<open>codeUnit\<close> and the object, whose reverse table the
  call may have built.
\<close>

definition PdfBuiltInEncoding_tryGetCharCode ::
    "PdfBuiltInEncoding \<Rightarrow> 32 word \<Rightarrow> bool \<times> PdfCharCode \<times> PdfBuiltInEncoding" where
  "PdfBuiltInEncoding_tryGetCharCode this codePoint =
     (let this' = initEncodingTable this in
      case map_of (m_EncodingTable this') codePoint of
        None \<Rightarrow> (False, PdfCharCode_empty, this')
      | Some found \<Rightarrow> (True, \<lparr>Code = ucast found, CodeSpaceSize = 1\<rparr>, this'))"

text \<open>Lines 630-639: \<open>None\<close> when it returns false, leaving \<open>codePoints\<close> alone.\<close>

definition PdfBuiltInEncoding_tryGetCodePoints :: "32 word list \<Rightarrow> PdfCharCode \<Rightarrow> CodePointSpan option" where
  "PdfBuiltInEncoding_tryGetCodePoints cpUnicodeTable codeUnit =
     (if Code codeUnit \<ge> 256 then None
      else Some [cpUnicodeTable ! unat (Code codeUnit)])"

text \<open>
  A forward table with the shape of the standard ones: the printable ASCII codes map to
  themselves, code \<open>AD\<close> is a second code of the hyphen \<open>U+002D\<close>, and every other code has
  the null code point.
\<close>

definition ascii_table :: "32 word list" where
  "ascii_table =
     map (\<lambda>i. if i = 0xAD then 0x2D else if 0x20 \<le> i \<and> i < 0x7F then of_nat i else 0) [0..<256]"

subsection \<open>PdfEncodingMapOneByte::AppendToUnicodeEntries\<close>

text \<open>
  The functions that the serialisation calls and that are defined in files not among the
  sources, as parameters: \<open>PdfCharCode::WriteHexTo\<close> (the text it leaves in \<open>temp\<close>),
  \<open>utls::WriteUtf16BETo\<close> (the bytes of \<open>u16tmp\<close> after the call, two for each code
  unit), \<open>utls::WriteCharHexTo\<close> (the two characters it puts in \<open>hexbuf\<close>) and the
  constructor \<open>PdfCharCode(unsigned)\<close>.
\<close>

record utls =
  WriteHexTo :: "PdfCharCode \<Rightarrow> string"
  WriteUtf16BETo :: "32 word \<Rightarrow> 8 word list"
  WriteCharHexTo :: "8 word \<Rightarrow> char \<times> char"
  PdfCharCode_of :: "32 word \<Rightarrow> PdfCharCode"

text \<open>
  Lines 261-287. The output stream is its text so far; \<open>stream.Write\<close> appends to it.
\<close>

fun AppendUTF16CodeTo_loop :: "utls \<Rightarrow> bool \<Rightarrow> unicodeview \<Rightarrow> string \<Rightarrow> string" where
  "AppendUTF16CodeTo_loop u first [] stream = stream"
| "AppendUTF16CodeTo_loop u first (cp # codePoints) stream =
     AppendUTF16CodeTo_loop u False codePoints
       ((if first then stream else stream @ '' '')
        @ concat (map (\<lambda>b. case WriteCharHexTo u b of (h, l) \<Rightarrow> [h, l]) (WriteUtf16BETo u cp)))"

definition AppendUTF16CodeTo :: "utls \<Rightarrow> string \<Rightarrow> unicodeview \<Rightarrow> string" where
  "AppendUTF16CodeTo u stream codePoints =
     AppendUTF16CodeTo_loop u True codePoints (stream @ ''<'') @ ''>''"

text \<open>Lines 187-190: the public lookup forwards to the virtual one.\<close>

definition TryGetCodePoints :: "(PdfCharCode \<Rightarrow> CodePointSpan option) \<Rightarrow> PdfCharCode \<Rightarrow> CodePointSpan option" where
  "TryGetCodePoints tryGetCodePoints codeUnit = tryGetCodePoints codeUnit"

text \<open>
  Lines 468-479: the loop \<open>for (; code <= lastCode; code++)\<close> on \<open>unsigned\<close> values. With
  \<open>lastCode = 0xFFFFFFFF\<close> the counter wraps and the loop does not end; not returning is
  \<open>None\<close>.
\<close>

partial_function (option) AppendToUnicodeEntries_loop ::
    "utls \<Rightarrow> (PdfCharCode \<Rightarrow> CodePointSpan option) \<Rightarrow> 32 word \<Rightarrow> 32 word \<Rightarrow> string \<Rightarrow> string option" where
  "AppendToUnicodeEntries_loop u tryGetCodePoints code lastCode stream =
     (if code \<le> lastCode then
        (case TryGetCodePoints tryGetCodePoints (PdfCharCode_of u code) of
           None \<Rightarrow> AppendToUnicodeEntries_loop u tryGetCodePoints (code + 1) lastCode stream
         | Some codePoints \<Rightarrow>
             AppendToUnicodeEntries_loop u tryGetCodePoints (code + 1) lastCode
               (AppendUTF16CodeTo u stream codePoints @ ''\<newline>''))
      else Some stream)"

text \<open>
  Lines 453-482. \<open>PODOFO_ASSERT\<close> is defined in a header not among the sources; a failed
  assertion is the outcome \<open>Inl AssertFailed\<close>.
\<close>

datatype assert_failure = AssertFailed

definition AppendToUnicodeEntries ::
    "utls \<Rightarrow> (PdfCharCode \<Rightarrow> CodePointSpan option) \<Rightarrow> PdfEncodingLimits \<Rightarrow> string
     \<Rightarrow> (assert_failure + string) option" where
  "AppendToUnicodeEntries u tryGetCodePoints limits stream =
     (if MaxCodeSize limits \<noteq> 1 then Some (Inl AssertFailed)
      else
        (case AppendToUnicodeEntries_loop u tryGetCodePoints
                (Code (FirstChar limits)) (Code (LastChar limits))
                (stream @ ''1 beginbfrange\<newline>'' @ WriteHexTo u (FirstChar limits) @ '' ''
                   @ WriteHexTo u (LastChar limits) @ '' [\<newline>'') of
           None \<Rightarrow> None
         | Some stream' \<Rightarrow> Some (Inr (stream' @ '']\<newline>'' @ ''endbfrange\<newline>''))))"

text \<open>
  What the loop writes for one code: nothing when the lookup fails, and otherwise one
  literal and a line feed.
\<close>

definition bfrange_entry :: "utls \<Rightarrow> (PdfCharCode \<Rightarrow> CodePointSpan option) \<Rightarrow> 32 word \<Rightarrow> string" where
  "bfrange_entry u tryGetCodePoints code =
     (case tryGetCodePoints (PdfCharCode_of u code) of
        None \<Rightarrow> []
      | Some codePoints \<Rightarrow> AppendUTF16CodeTo u [] codePoints @ ''\<newline>'')"

text \<open>
  Modelled from the spec: the four functions above, for a run of the serialisation on
  concrete data. A char code is written as twice its size in hexadecimal digits between
  angle brackets; a code point becomes its UTF-16 code units in big-endian byte order, and
  each byte two hexadecimal digits; a char code made from a number alone has the least
  size that holds it.
\<close>

definition hex_digit :: "nat \<Rightarrow> char" where
  "hex_digit n = ''0123456789ABCDEF'' ! (n mod 16)"

definition hex_byte :: "nat \<Rightarrow> string" where
  "hex_byte n = [hex_digit (n div 16), hex_digit n]"

definition spec_WriteHexTo :: "PdfCharCode \<Rightarrow> string" where
  "spec_WriteHexTo c =
     ''<'' @ concat (map (\<lambda>k. hex_byte (unat (Code c) div 256 ^ k mod 256))
                      (rev [0..<unat (CodeSpaceSize c)])) @ ''>''"

definition spec_WriteUtf16BETo :: "32 word \<Rightarrow> 8 word list" where
  "spec_WriteUtf16BETo cp =
     (let n = unat cp in
      if n < 0x10000 then [of_nat (n div 256), of_nat n]
      else
        let hi = 0xD800 + (n - 0x10000) div 1024;
            lo = 0xDC00 + (n - 0x10000) mod 1024
        in [of_nat (hi div 256), of_nat hi, of_nat (lo div 256), of_nat lo])"

definition spec_WriteCharHexTo :: "8 word \<Rightarrow> char \<times> char" where
  "spec_WriteCharHexTo b = (hex_digit (unat b div 16), hex_digit (unat b))"

definition spec_PdfCharCode_of :: "32 word \<Rightarrow> PdfCharCode" where
  "spec_PdfCharCode_of code =
     \<lparr>Code = code,
      CodeSpaceSize = (if code \<le> 0xFF then 1 else if code \<le> 0xFFFF then 2
                       else if code \<le> 0xFFFFFF then 3 else 4)\<rparr>"

definition spec_utls :: utls where
  "spec_utls = \<lparr>WriteHexTo = spec_WriteHexTo, WriteUtf16BETo = spec_WriteUtf16BETo,
                 WriteCharHexTo = spec_WriteCharHexTo, PdfCharCode_of = spec_PdfCharCode_of\<rparr>"

section \<open>PdfSigningContext.h\<close>

text \<open>
  \<open>PdfReference\<close> is declared in PdfReference.h, not among the sources: an object number
  (\<open>uint32_t\<close>) and a generation number (\<open>uint16_t\<close>).

  Modelled from the spec: \<open>PdfReference::operator==\<close>, which compares both numbers.
\<close>

record PdfReference =
  ObjectNumber :: "32 word"
  GenerationNumber :: "16 word"

definition PdfReference_eq :: "PdfReference \<Rightarrow> PdfReference \<Rightarrow> bool" where
  "PdfReference_eq a b = (ObjectNumber a = ObjectNumber b \<and> GenerationNumber a = GenerationNumber b)"

record PdfSignerId =
  m_SignatureRef :: PdfReference
  m_SignerIndex :: "32 word"

text \<open>Lines 23-31.\<close>

definition PdfSignerId_eq :: "PdfSignerId \<Rightarrow> PdfSignerId \<Rightarrow> bool" where
  "PdfSignerId_eq this rhs =
     (PdfReference_eq (m_SignatureRef this) (m_SignatureRef rhs) \<and> m_SignerIndex this = m_SignerIndex rhs)"

definition PdfSignerId_ne :: "PdfSignerId \<Rightarrow> PdfSignerId \<Rightarrow> bool" where
  "PdfSignerId_ne this rhs =
     (\<not> PdfReference_eq (m_SignatureRef this) (m_SignatureRef rhs) \<or> m_SignerIndex this \<noteq> m_SignerIndex rhs)"

text \<open>
  Lines 43-51. The generation number is promoted to \<open>int\<close> before the shift, the
  exclusive or with the object number is one of 32-bit values, and its result is widened
  to \<open>size_t\<close> for the exclusive or with the index, itself cast to \<open>size_t\<close> before its shift.
\<close>

definition PdfSignerId_hash :: "PdfSignerId \<Rightarrow> size_t" where
  "PdfSignerId_hash id' =
     ucast (ObjectNumber (m_SignatureRef id')
              XOR push_bit 16 (ucast (GenerationNumber (m_SignatureRef id')) :: 32 word))
       XOR push_bit 24 (ucast (m_SignerIndex id') :: 64 word)"

section \<open>Arithmetic of 64-bit words\<close>

lemma int_mod_sub: "m \<le> x \<Longrightarrow> x < 2 * m \<Longrightarrow> (x::int) mod m = x - m"
proof -
  assume a: "m \<le> x" "x < 2 * m"
  then have "(x - m) mod m = x - m" by (intro mod_pos_pos_trivial) simp_all
  then show ?thesis by simp
qed

lemma int_mod_add: "- m \<le> x \<Longrightarrow> x < 0 \<Longrightarrow> (x::int) mod m = x + m"
proof -
  assume a: "- m \<le> x" "x < 0"
  then have "(x + m) mod m = x + m" by (intro mod_pos_pos_trivial) simp_all
  then show ?thesis by simp
qed

lemma add_mod_int:
  "0 \<le> a \<Longrightarrow> a < m \<Longrightarrow> 0 \<le> b \<Longrightarrow> b < m \<Longrightarrow>
   (a + b) mod m = (if a + b < m then a + b else a + b - m)" for a b m :: int
  by (simp add: int_mod_sub)

lemma sub_mod_int:
  "0 \<le> a \<Longrightarrow> a < m \<Longrightarrow> 0 \<le> b \<Longrightarrow> b < m \<Longrightarrow>
   (a - b) mod m = (if b \<le> a then a - b else a - b + m)" for a b m :: int
  by (simp add: int_mod_add)

lemma neg_mod_int:
  "0 \<le> a \<Longrightarrow> a < m \<Longrightarrow> (- a) mod m = (if a = 0 then 0 else m - a)" for a m :: int
  by (simp add: int_mod_add)

lemma sint64: "sint (w::64 word) = (if uint w < 2^63 then uint w else uint w - 2^64)"
proof -
  have a: "sint w = (uint w + 2^63) mod 2^64 - 2^63"
    by (simp add: sint_uint signed_take_bit_eq_take_bit_shift take_bit_eq_mod)
  have b: "0 \<le> uint w" "uint w < 2^64"
    using uint_lt2p[of w] by simp_all
  show ?thesis
    unfolding a using add_mod_int[OF b, of "2^63"] by simp
qed

lemma uint_neg64: "uint (- (w::64 word)) = (if w = 0 then 0 else 2^64 - uint w)"
proof -
  have b: "0 \<le> uint w" "uint w < 2^64"
    using uint_lt2p[of w] by simp_all
  have "uint (- w) = (- uint w) mod 2^64" by (simp add: uint_word_ariths)
  then show ?thesis
    using neg_mod_int[OF b] by (simp add: uint_0_iff)
qed

lemma uint_add64: "uint ((a::64 word) + b) = (if uint a + uint b < 2^64 then uint a + uint b else uint a + uint b - 2^64)"
proof -
  have bd: "0 \<le> uint a" "uint a < 2^64" "0 \<le> uint b" "uint b < 2^64"
    using uint_lt2p[of a] uint_lt2p[of b] by simp_all
  have "uint (a + b) = (uint a + uint b) mod 2^64" by (simp add: uint_word_ariths)
  then show ?thesis
    using add_mod_int[OF bd] by simp
qed

lemma uint_sub64: "uint ((a::64 word) - b) = (if uint b \<le> uint a then uint a - uint b else uint a - uint b + 2^64)"
proof -
  have bd: "0 \<le> uint a" "uint a < 2^64" "0 \<le> uint b" "uint b < 2^64"
    using uint_lt2p[of a] uint_lt2p[of b] by simp_all
  have "uint (a - b) = (uint a - uint b) mod 2^64" by (simp add: uint_word_ariths)
  then show ?thesis
    using sub_mod_int[OF bd] by simp
qed


section \<open>Properties of the stream devices\<close>

lemma uint_bounds64: "0 \<le> uint (w::64 word)" "uint (w::64 word) < 18446744073709551616"
  using uint_lt2p[of w] by simp_all

lemma word_zero_or_pos: "w = 0 \<or> 0 < uint (w::64 word)"
  by (metis uint_0_iff uint_nonnegative order_le_less)

lemma SeekPosition_Begin:
  "map_sum id uint (SeekPosition curpos devlen offset Begin)
     = SeekPosition_spec (uint curpos) (uint devlen) (sint offset) Begin"
  using uint_bounds64[of offset] uint_bounds64[of devlen]
  by (auto simp: SeekPosition_def SeekPosition_spec_def word_less_def sint64)

lemma SeekPosition_Current:
  assumes "curpos \<le> devlen"
  shows "map_sum id uint (SeekPosition curpos devlen offset Current)
     = SeekPosition_spec (uint curpos) (uint devlen) (sint offset) Current"
  using uint_bounds64[of offset] uint_bounds64[of devlen] uint_bounds64[of curpos] assms
    word_zero_or_pos[of offset]
  by (auto simp: SeekPosition_def SeekPosition_spec_def word_less_def word_le_def sint64
       uint_add64 uint_sub64 uint_neg64 uint_0_iff)

lemma SeekPosition_End:
  "map_sum id uint (SeekPosition curpos devlen offset End)
     = SeekPosition_spec (uint curpos) (uint devlen) (sint offset) End"
  using uint_bounds64[of offset] uint_bounds64[of devlen] word_zero_or_pos[of offset]
  by (auto simp: SeekPosition_def SeekPosition_spec_def word_less_def word_le_def sint64
       uint_add64 uint_sub64 uint_neg64 uint_0_iff)


text \<open>
  C1 (amended). For \<open>curpos \<le> devlen\<close>, \<open>SeekPosition\<close> computes \<open>SeekPosition_spec\<close> on the
  integer values of its arguments, and the position it returns is that integer (nothing
  wraps): from \<open>Begin\<close> a negative offset is an \<open>IOError\<close>, an offset above \<open>devlen\<close> is
  \<open>ValueOutOfRange\<close>, and otherwise the result is the offset; from \<open>Current\<close> offset 0
  returns \<open>curpos\<close>, a positive offset above \<open>devlen - curpos\<close> or a negative one of
  magnitude above \<open>curpos\<close> is \<open>ValueOutOfRange\<close>, and otherwise the result is
  \<open>curpos + offset\<close>; from \<open>End\<close> a positive offset is an \<open>IOError\<close>, a magnitude above
  \<open>devlen\<close> is \<open>ValueOutOfRange\<close>, and otherwise the result is \<open>devlen + offset\<close>; any
  other direction is \<open>InvalidEnumValue\<close>.
\<close>

theorem C1_SeekPosition_amended:
  assumes "curpos \<le> devlen"
  shows "map_sum id uint (SeekPosition curpos devlen offset direction)
     = SeekPosition_spec (uint curpos) (uint devlen) (sint offset) direction"
proof (cases direction)
  case Begin
  then show ?thesis by (simp only: SeekPosition_Begin)
next
  case Current
  then show ?thesis using assms by (simp only: SeekPosition_Current)
next
  case End
  then show ?thesis by (simp only: SeekPosition_End)
next
  case (SeekDirection_invalid v)
  then show ?thesis by (simp add: SeekPosition_def SeekPosition_spec_def)
qed

theorem C1_SeekPosition_amended_witness:
  "(3 :: 64 word) \<le> 10
   \<and> map_sum id uint (SeekPosition 3 10 (- 2) Current) = Inr 1
   \<and> map_sum id uint (SeekPosition 3 10 (- 4) Current) = Inl ValueOutOfRange
   \<and> map_sum id uint (SeekPosition 3 10 (- 1) Begin) = Inl IOError
   \<and> map_sum id uint (SeekPosition 3 10 (- 10) End) = Inr 0"
  using C1_SeekPosition_amended [of 3 10 "- 2" Current]
    C1_SeekPosition_amended [of 3 10 "- 4" Current]
    C1_SeekPosition_amended [of 3 10 "- 1" Begin]
    C1_SeekPosition_amended [of 3 10 "- 10" End]
  by (simp add: SeekPosition_spec_def)

text \<open>
  C1 as stated fails: seeking to offset \<open>-1\<close> from \<open>Begin\<close> raises \<open>IOError\<close> ("Invalid
  negative seek"), not \<open>ValueOutOfRange\<close>.
\<close>

theorem C1_Begin_negative_counterexample:
  "SeekPosition 0 10 (- 1) Begin = Inl IOError
   \<and> SeekPosition 0 10 (- 1) Begin \<noteq> Inl ValueOutOfRange"
  by (simp add: SeekPosition_def)

text \<open>
  C8. \<open>NullStreamDevice::readChar\<close> always outputs the null character and always returns
  false: below the length it advances the position by one, at the length it leaves the
  device as it is. \<open>peek\<close> on the same device returns true exactly when the position
  differs from the length.
\<close>

theorem C8_null_readChar:
  "fst (NullStreamDevice_readChar d) = False
   \<and> fst (snd (NullStreamDevice_readChar d)) = 0
   \<and> (null_Position d < null_Length d \<longrightarrow>
        snd (snd (NullStreamDevice_readChar d)) = d\<lparr>null_Position := null_Position d + 1\<rparr>
        \<and> unat (null_Position (snd (snd (NullStreamDevice_readChar d)))) = unat (null_Position d) + 1)
   \<and> (null_Position d = null_Length d \<longrightarrow> snd (snd (NullStreamDevice_readChar d)) = d)
   \<and> fst (NullStreamDevice_peek d) = (null_Position d \<noteq> null_Length d)
   \<and> snd (NullStreamDevice_peek d) = 0"
proof -
  have "unat (null_Position d + 1) = unat (null_Position d) + 1"
    if "null_Position d < null_Length d"
    using that by unat_arith
  then show ?thesis
    by (auto simp: NullStreamDevice_readChar_def NullStreamDevice_peek_def)
qed

theorem C8_null_readChar_witness:
  "fst (NullStreamDevice_readChar \<lparr>null_Length = 5, null_Position = 2\<rparr>) = False
   \<and> snd (snd (NullStreamDevice_readChar \<lparr>null_Length = 5, null_Position = 2\<rparr>))
       = \<lparr>null_Length = 5, null_Position = 3\<rparr>
   \<and> fst (NullStreamDevice_peek \<lparr>null_Length = 5, null_Position = 2\<rparr>) = True
   \<and> snd (snd (NullStreamDevice_readChar \<lparr>null_Length = 5, null_Position = 5\<rparr>))
       = \<lparr>null_Length = 5, null_Position = 5\<rparr>
   \<and> fst (NullStreamDevice_peek \<lparr>null_Length = 5, null_Position = 5\<rparr>) = False"
  using C8_null_readChar [of "\<lparr>null_Length = 5, null_Position = 2\<rparr>"]
    C8_null_readChar [of "\<lparr>null_Length = 5, null_Position = 5\<rparr>"]
  by simp

lemma unat_add_no_wrap:
  "unat a + unat b < 2 ^ 64 \<Longrightarrow> unat ((a::64 word) + b) = unat a + unat b"
  by (simp add: unat_word_ariths)

text \<open>
  C6. A write of \<open>n\<close> bytes to a span of length \<open>L\<close> at position \<open>P\<close>: when \<open>P + n > L\<close>
  it raises \<open>ValueOutOfRange\<close> and the device (position, length and bytes) is as before;
  when \<open>P + n = L\<close> it succeeds and leaves the position at \<open>L\<close>, the length unchanged
  and \<open>Eof()\<close> true. \<open>P + n\<close> is the sum of the integers; the first part is for sums below
  \<open>2 ^ 64\<close>, which is every span and source buffer that fit one address space together.
\<close>

theorem C6_span_write:
  "(unat (m_Length d) < unat (m_Position d) + unat n \<and> unat (m_Position d) + unat n < 2 ^ 64 \<longrightarrow>
      SpanStreamDevice_writeBuffer d buf n = (Some ValueOutOfRange, d))
   \<and> (unat (m_Position d) + unat n = unat (m_Length d) \<longrightarrow>
      fst (SpanStreamDevice_writeBuffer d buf n) = None
      \<and> m_Position (snd (SpanStreamDevice_writeBuffer d buf n)) = m_Length d
      \<and> m_Length (snd (SpanStreamDevice_writeBuffer d buf n)) = m_Length d
      \<and> SpanStreamDevice_Eof (snd (SpanStreamDevice_writeBuffer d buf n)))"
proof (intro conjI impI)
  assume a: "unat (m_Length d) < unat (m_Position d) + unat n \<and> unat (m_Position d) + unat n < 2 ^ 64"
  then have "unat (m_Position d + n) = unat (m_Position d) + unat n"
    by (simp add: unat_add_no_wrap)
  with a have "m_Length d < m_Position d + n"
    by (simp add: word_less_nat_alt)
  then show "SpanStreamDevice_writeBuffer d buf n = (Some ValueOutOfRange, d)"
    by (simp add: SpanStreamDevice_writeBuffer_def)
next
  assume a: "unat (m_Position d) + unat n = unat (m_Length d)"
  have "unat (m_Length d) < 2 ^ 64" using unsigned_less[of "m_Length d", where ?'a = nat] by simp
  with a have "unat (m_Position d + n) = unat (m_Length d)"
    by (simp add: unat_add_no_wrap)
  then have eq: "m_Position d + n = m_Length d"
    by (simp add: word_unat_eq_iff)
  then show "fst (SpanStreamDevice_writeBuffer d buf n) = None"
    and "m_Position (snd (SpanStreamDevice_writeBuffer d buf n)) = m_Length d"
    and "m_Length (snd (SpanStreamDevice_writeBuffer d buf n)) = m_Length d"
    and "SpanStreamDevice_Eof (snd (SpanStreamDevice_writeBuffer d buf n))"
    by (simp_all add: SpanStreamDevice_writeBuffer_def SpanStreamDevice_Eof_def)
qed

theorem C6_span_write_witness:
  "SpanStreamDevice_writeBuffer \<lparr>m_buffer = [1, 2, 3, 4], m_Length = 4, m_Position = 2\<rparr> [7, 8, 9] 3
     = (Some ValueOutOfRange, \<lparr>m_buffer = [1, 2, 3, 4], m_Length = 4, m_Position = 2\<rparr>)
   \<and> fst (SpanStreamDevice_writeBuffer \<lparr>m_buffer = [1, 2, 3, 4], m_Length = 4, m_Position = 2\<rparr> [7, 8] 2) = None
   \<and> m_Position (snd (SpanStreamDevice_writeBuffer \<lparr>m_buffer = [1, 2, 3, 4], m_Length = 4, m_Position = 2\<rparr> [7, 8] 2)) = 4
   \<and> SpanStreamDevice_Eof (snd (SpanStreamDevice_writeBuffer \<lparr>m_buffer = [1, 2, 3, 4], m_Length = 4, m_Position = 2\<rparr> [7, 8] 2))"
  using C6_span_write [of "\<lparr>m_buffer = [1, 2, 3, 4], m_Length = 4, m_Position = 2\<rparr>" 3 "[7, 8, 9]"]
    C6_span_write [of "\<lparr>m_buffer = [1, 2, 3, 4], m_Length = 4, m_Position = 2\<rparr>" 2 "[7, 8]"]
  by simp


lemma DeviceAccess_values: "Read = 1" "Write = 2" "ReadWrite = 3"
  by (simp_all add: Read_def Write_def ReadWrite_def)

text \<open>
  C5. \<open>createFile\<close> with \<open>CreateNew\<close> on an existing path raises \<open>IOError\<close> for every
  access value. With \<open>Open\<close> and \<open>Read\<close> on a missing path the switch chooses mode \<open>r\<close>
  and the \<open>IOError\<close> is the one raised when the host returns no handle, as \<open>fopen\<close> does
  for a missing file opened for reading. With \<open>OpenOrCreate\<close> and \<open>ReadWrite\<close> the mode is
  \<open>r+\<close> when the file exists and \<open>w+\<close> when it does not (with the suffix \<open>b\<close> on
  Windows), and the handle is the host's for that mode. Every mode other than \<open>Open\<close>
  raises \<open>IOError\<close> with \<open>Read\<close> access.
\<close>

theorem C5_createFile:
  "createFile win32 fopen True CreateNew access = Inl IOError
   \<and> createFile_cmode False Open Read = Inr ''r''
   \<and> (fopen (if win32 then ''rb'' else ''r'') = None \<longrightarrow>
        createFile win32 fopen False Open Read = Inl IOError)
   \<and> createFile_cmode True OpenOrCreate ReadWrite = Inr ''r+''
   \<and> createFile_cmode False OpenOrCreate ReadWrite = Inr ''w+''
   \<and> createFile win32 fopen True OpenOrCreate ReadWrite =
       (case fopen (if win32 then ''r+b'' else ''r+'') of None \<Rightarrow> Inl IOError | Some stream \<Rightarrow> Inr stream)
   \<and> createFile win32 fopen False OpenOrCreate ReadWrite =
       (case fopen (if win32 then ''w+b'' else ''w+'') of None \<Rightarrow> Inl IOError | Some stream \<Rightarrow> Inr stream)
   \<and> (mode \<in> {CreateNew, Create, OpenOrCreate, Truncate, Append} \<longrightarrow>
        createFile win32 fopen exists mode Read = Inl IOError)"
  by (auto simp: createFile_def createFile_cmode_def DeviceAccess_values)

theorem C5_createFile_witness:
  "createFile False (\<lambda>m. if m = ''r'' then None else Some m) False Open Read = Inl IOError
   \<and> createFile False (\<lambda>m. if m = ''r'' then None else Some m) True CreateNew ReadWrite = Inl IOError
   \<and> createFile False (\<lambda>m. if m = ''r'' then None else Some m) True OpenOrCreate ReadWrite = Inr ''r+''
   \<and> createFile False (\<lambda>m. if m = ''r'' then None else Some m) False Truncate Read = Inl IOError"
  using C5_createFile [of False "\<lambda>m. if m = ''r'' then None else Some m" ReadWrite Truncate False]
  by simp

section \<open>Properties of the encoding maps\<close>

text \<open>
  C7. \<open>TryGetCharCode\<close> on a span of code points: the empty span fails, with the output
  char code cleared; a span of two or more code points fails in the same way when the map
  has no ligature support; a span of one code point is handed to the lookup of a single
  code point, whatever the ligature support.
\<close>

theorem C7_TryGetCharCode_span:
  "TryGetCharCode this [] codeUnit = Inr (False, PdfCharCode_empty)
   \<and> (2 \<le> length codePoints \<and> \<not> HasLigaturesSupport this \<longrightarrow>
        TryGetCharCode this codePoints codeUnit = Inr (False, PdfCharCode_empty))
   \<and> TryGetCharCode this [cp] codeUnit = tryGetCharCode this cp codeUnit"
  by (simp add: TryGetCharCode_def)

theorem C7_TryGetCharCode_span_witness:
  "TryGetCharCode \<lparr>tryGetCharCode = (\<lambda>cp cu. Inr (True, \<lparr>Code = cp, CodeSpaceSize = 1\<rparr>)),
       tryGetCharCodeSpan = PdfEncodingMap_tryGetCharCodeSpan,
       HasLigaturesSupport = PdfEncodingMap_HasLigaturesSupport\<rparr> [0x66, 0x69] PdfCharCode_empty
     = Inr (False, PdfCharCode_empty)"
  using C7_TryGetCharCode_span [of "\<lparr>tryGetCharCode = (\<lambda>cp cu. Inr (True, \<lparr>Code = cp, CodeSpaceSize = 1\<rparr>)),
       tryGetCharCodeSpan = PdfEncodingMap_tryGetCharCodeSpan,
       HasLigaturesSupport = PdfEncodingMap_HasLigaturesSupport\<rparr>" PdfCharCode_empty "[0x66, 0x69]"]
  by (simp add: PdfEncodingMap_HasLigaturesSupport_def)

lemma ascii_table_nth:
  "i < 256 \<Longrightarrow> ascii_table ! i = (if i = 0xAD then 0x2D else if 0x20 \<le> i \<and> i < 0x7F then of_nat i else 0)"
  by (simp add: ascii_table_def)

text \<open>
  C10. \<open>PdfBuiltInEncoding::tryGetCodePoints\<close> returns false for every char code of value
  256 or more, and true for every char code below 256, with the span of the one code point
  that the forward table has there; where that entry is the null code point the span is
  the single code point \<open>U+0000\<close>.
\<close>

theorem C10_builtin_tryGetCodePoints:
  "(256 \<le> Code codeUnit \<longrightarrow> PdfBuiltInEncoding_tryGetCodePoints cpUnicodeTable codeUnit = None)
   \<and> (Code codeUnit < 256 \<longrightarrow>
        PdfBuiltInEncoding_tryGetCodePoints cpUnicodeTable codeUnit
          = Some [cpUnicodeTable ! unat (Code codeUnit)])
   \<and> (Code codeUnit < 256 \<and> cpUnicodeTable ! unat (Code codeUnit) = 0 \<longrightarrow>
        PdfBuiltInEncoding_tryGetCodePoints cpUnicodeTable codeUnit = Some [0])"
  by (auto simp: PdfBuiltInEncoding_tryGetCodePoints_def)

theorem C10_builtin_tryGetCodePoints_witness:
  "PdfBuiltInEncoding_tryGetCodePoints ascii_table \<lparr>Code = 256, CodeSpaceSize = 2\<rparr> = None
   \<and> PdfBuiltInEncoding_tryGetCodePoints ascii_table \<lparr>Code = 0x41, CodeSpaceSize = 1\<rparr> = Some [0x41]
   \<and> PdfBuiltInEncoding_tryGetCodePoints ascii_table \<lparr>Code = 0x81, CodeSpaceSize = 1\<rparr> = Some [0]"
  using C10_builtin_tryGetCodePoints [of "\<lparr>Code = 256, CodeSpaceSize = 2\<rparr>" ascii_table]
    C10_builtin_tryGetCodePoints [of "\<lparr>Code = 0x41, CodeSpaceSize = 1\<rparr>" ascii_table]
    C10_builtin_tryGetCodePoints [of "\<lparr>Code = 0x81, CodeSpaceSize = 1\<rparr>" ascii_table]
  by (simp add: ascii_table_nth)

lemma initEncodingTable_loop_miss:
  "\<forall>j. i \<le> j \<and> j < 256 \<longrightarrow> t ! j \<noteq> cp \<Longrightarrow> map_of (initEncodingTable_loop t i m) cp = map_of m cp"
proof (induction t i m rule: initEncodingTable_loop.induct)
  case (1 t i m)
  show ?case
  proof (cases "i < 256")
    case True
    have "map_of (initEncodingTable_loop t i m) cp
            = map_of (initEncodingTable_loop t (i + 1) (AList.update (t ! i) (of_nat i) m)) cp"
      using True by (subst initEncodingTable_loop.simps) simp
    also have "\<dots> = map_of (AList.update (t ! i) (of_nat i) m) cp"
      using True "1.prems" by (intro "1.IH") auto
    also have "\<dots> = map_of m cp"
      using True "1.prems" by (auto simp: update_conv')
    finally show ?thesis .
  next
    case False
    then show ?thesis by (subst initEncodingTable_loop.simps) simp
  qed
qed

lemma initEncodingTable_loop_hit:
  "i \<le> j \<Longrightarrow> j < 256 \<Longrightarrow> t ! j = cp \<Longrightarrow> \<forall>k. j < k \<and> k < 256 \<longrightarrow> t ! k \<noteq> cp
   \<Longrightarrow> map_of (initEncodingTable_loop t i m) cp = Some (of_nat j)"
proof (induction t i m rule: initEncodingTable_loop.induct)
  case (1 t i m)
  from "1.prems" have lt: "i < 256" by simp
  have step: "initEncodingTable_loop t i m
            = initEncodingTable_loop t (i + 1) (AList.update (t ! i) (of_nat i) m)"
    using lt by (subst initEncodingTable_loop.simps) simp
  show ?case
  proof (cases "i = j")
    case True
    have "map_of (initEncodingTable_loop t (i + 1) (AList.update (t ! i) (of_nat i) m)) cp
            = map_of (AList.update (t ! i) (of_nat i) m) cp"
      using "1.prems" True by (intro initEncodingTable_loop_miss) auto
    then show ?thesis
      using step True "1.prems" by (simp add: update_conv')
  next
    case False
    with "1.prems" have "i + 1 \<le> j" by simp
    then show ?thesis
      using step lt "1.prems" "1.IH" by simp
  qed
qed

lemma initEncodingTable_loop_keeps_nonempty:
  "m \<noteq> [] \<Longrightarrow> initEncodingTable_loop t i m \<noteq> []"
proof (induction t i m rule: initEncodingTable_loop.induct)
  case (1 t i m)
  show ?case
  proof (cases "i < 256")
    case True
    have "AList.update (t ! i) (of_nat i) m \<noteq> []" by simp
    with True "1.IH" have "initEncodingTable_loop t (i + 1) (AList.update (t ! i) (of_nat i) m) \<noteq> []"
      by simp
    then show ?thesis using True by (subst initEncodingTable_loop.simps) simp
  next
    case False
    then show ?thesis using "1.prems" by (subst initEncodingTable_loop.simps) simp
  qed
qed

lemma initEncodingTable_loop_nonempty: "initEncodingTable_loop t 0 m \<noteq> []"
proof -
  have "AList.update (t ! 0) 0 m \<noteq> []" by simp
  then have "initEncodingTable_loop t 1 (AList.update (t ! 0) 0 m) \<noteq> []"
    by (rule initEncodingTable_loop_keeps_nonempty)
  then show ?thesis by (subst initEncodingTable_loop.simps) simp
qed

lemma initEncodingTable_idem: "initEncodingTable (initEncodingTable this) = initEncodingTable this"
  by (simp add: initEncodingTable_def initEncodingTable_loop_nonempty)

lemma ucast_of_nat_byte: "j < 256 \<Longrightarrow> (ucast (of_nat j :: 8 word) :: 32 word) = of_nat j"
proof -
  assume "j < 256"
  then have "take_bit 8 j = j" by (simp add: take_bit_nat_eq_self)
  then show ?thesis by (simp add: unsigned_of_nat)
qed

lemma tryGetCharCode_last:
  assumes "m_EncodingTable this = []" and "j < 256" and "GetToUnicodeTable this ! j = cp"
    and "\<forall>k. j < k \<and> k < 256 \<longrightarrow> GetToUnicodeTable this ! k \<noteq> cp"
  shows "PdfBuiltInEncoding_tryGetCharCode this cp
           = (True, \<lparr>Code = of_nat j, CodeSpaceSize = 1\<rparr>, initEncodingTable this)"
proof -
  have "map_of (initEncodingTable_loop (GetToUnicodeTable this) 0 []) cp = Some (of_nat j)"
    using assms(2-4) by (intro initEncodingTable_loop_hit) simp_all
  then show ?thesis
    using assms(1,2)
    by (simp add: PdfBuiltInEncoding_tryGetCharCode_def initEncodingTable_def ucast_of_nat_byte)
qed

lemma tryGetCharCode_absent:
  assumes "m_EncodingTable this = []" and "\<forall>j. j < 256 \<longrightarrow> GetToUnicodeTable this ! j \<noteq> cp"
  shows "PdfBuiltInEncoding_tryGetCharCode this cp = (False, PdfCharCode_empty, initEncodingTable this)"
proof -
  have "map_of (initEncodingTable_loop (GetToUnicodeTable this) 0 []) cp = map_of [] cp"
    using assms(2) by (intro initEncodingTable_loop_miss) simp
  then show ?thesis
    using assms(1)
    by (simp add: PdfBuiltInEncoding_tryGetCharCode_def initEncodingTable_def)
qed

lemma last_code_exists:
  assumes "code < (256::nat)"
  shows "\<exists>j. code \<le> j \<and> j < 256 \<and> t ! j = t ! code \<and> (\<forall>k. j < k \<and> k < 256 \<longrightarrow> t ! k \<noteq> t ! code)"
proof -
  let ?P = "\<lambda>j. j < 256 \<and> t ! j = t ! code"
  have "?P code" using assms by simp
  moreover have "\<forall>y. ?P y \<longrightarrow> y \<le> 256" by simp
  ultimately obtain j where j: "?P j" "\<forall>y. ?P y \<longrightarrow> y \<le> j"
    using Nat.ex_has_greatest_nat[of ?P code 256] by blast
  then have "code \<le> j" using \<open>?P code\<close> by blast
  moreover have "\<forall>k. j < k \<and> k < 256 \<longrightarrow> t ! k \<noteq> t ! code"
    using j(2) by (meson not_less)
  ultimately show ?thesis using j(1) by blast
qed

text \<open>
  C2 (amended). On a \<open>PdfBuiltInEncoding\<close> whose reverse table is still to be built, and
  for every byte code 0-255, \<open>tryGetCharCode\<close> applied to the code point of the forward
  table at that code returns true with the greatest byte code that has this code point:
  the original code whenever no greater code shares it. The loop that builds the reverse
  table skips nothing, so this holds for the codes whose entry is the null code point as
  well. The first call builds the table and later calls use it as it is.
\<close>

theorem C2_reverse_lookup_amended:
  assumes "m_EncodingTable this = []" and "code < 256"
  shows "(\<exists>j. code \<le> j \<and> j < 256
            \<and> GetToUnicodeTable this ! j = GetToUnicodeTable this ! code
            \<and> (\<forall>k. j < k \<and> k < 256 \<longrightarrow> GetToUnicodeTable this ! k \<noteq> GetToUnicodeTable this ! code)
            \<and> PdfBuiltInEncoding_tryGetCharCode this (GetToUnicodeTable this ! code)
                = (True, \<lparr>Code = of_nat j, CodeSpaceSize = 1\<rparr>, initEncodingTable this))
         \<and> ((\<forall>k. code < k \<and> k < 256 \<longrightarrow> GetToUnicodeTable this ! k \<noteq> GetToUnicodeTable this ! code) \<longrightarrow>
              PdfBuiltInEncoding_tryGetCharCode this (GetToUnicodeTable this ! code)
                = (True, \<lparr>Code = of_nat code, CodeSpaceSize = 1\<rparr>, initEncodingTable this))
         \<and> PdfBuiltInEncoding_tryGetCharCode (initEncodingTable this) (GetToUnicodeTable this ! code)
              = PdfBuiltInEncoding_tryGetCharCode this (GetToUnicodeTable this ! code)"
proof (intro conjI impI)
  obtain j where j: "code \<le> j" "j < 256"
      "GetToUnicodeTable this ! j = GetToUnicodeTable this ! code"
      "\<forall>k. j < k \<and> k < 256 \<longrightarrow> GetToUnicodeTable this ! k \<noteq> GetToUnicodeTable this ! code"
    using last_code_exists[OF assms(2), of "GetToUnicodeTable this"] by blast
  have "PdfBuiltInEncoding_tryGetCharCode this (GetToUnicodeTable this ! code)
          = (True, \<lparr>Code = of_nat j, CodeSpaceSize = 1\<rparr>, initEncodingTable this)"
    using assms(1) j(2,3,4) by (rule tryGetCharCode_last)
  with j show "\<exists>j. code \<le> j \<and> j < 256
            \<and> GetToUnicodeTable this ! j = GetToUnicodeTable this ! code
            \<and> (\<forall>k. j < k \<and> k < 256 \<longrightarrow> GetToUnicodeTable this ! k \<noteq> GetToUnicodeTable this ! code)
            \<and> PdfBuiltInEncoding_tryGetCharCode this (GetToUnicodeTable this ! code)
                = (True, \<lparr>Code = of_nat j, CodeSpaceSize = 1\<rparr>, initEncodingTable this)"
    by blast
next
  assume "\<forall>k. code < k \<and> k < 256 \<longrightarrow> GetToUnicodeTable this ! k \<noteq> GetToUnicodeTable this ! code"
  with assms show "PdfBuiltInEncoding_tryGetCharCode this (GetToUnicodeTable this ! code)
                = (True, \<lparr>Code = of_nat code, CodeSpaceSize = 1\<rparr>, initEncodingTable this)"
    by (intro tryGetCharCode_last) simp_all
next
  show "PdfBuiltInEncoding_tryGetCharCode (initEncodingTable this) (GetToUnicodeTable this ! code)
              = PdfBuiltInEncoding_tryGetCharCode this (GetToUnicodeTable this ! code)"
    by (simp add: PdfBuiltInEncoding_tryGetCharCode_def initEncodingTable_idem)
qed

lemma of_nat_eq_numeral_32:
  "k < 256 \<Longrightarrow> numeral n < (256::nat) \<Longrightarrow> ((of_nat k :: 32 word) = numeral n) = (k = numeral n)"
proof -
  assume a: "k < 256" "numeral n < (256::nat)"
  have "(numeral n :: 32 word) = of_nat (numeral n)" by simp
  then have "((of_nat k :: 32 word) = numeral n) = (take_bit 32 k = take_bit 32 (numeral n :: nat))"
    by (simp only: word_of_nat_eq_iff) simp
  moreover have "take_bit 32 k = k" using a(1) by (simp add: take_bit_nat_eq_self)
  moreover have "(numeral n :: nat) < 2 ^ 32"
    by (rule less_trans[OF a(2)]) simp
  then have "take_bit 32 (numeral n :: nat) = numeral n"
    by (rule take_bit_nat_eq_self)
  ultimately show ?thesis by simp
qed

theorem C2_reverse_lookup_amended_witness:
  "PdfBuiltInEncoding_tryGetCharCode \<lparr>GetToUnicodeTable = ascii_table, m_EncodingTable = []\<rparr> 0x41
     = (True, \<lparr>Code = 0x41, CodeSpaceSize = 1\<rparr>,
        initEncodingTable \<lparr>GetToUnicodeTable = ascii_table, m_EncodingTable = []\<rparr>)"
  using C2_reverse_lookup_amended [of "\<lparr>GetToUnicodeTable = ascii_table, m_EncodingTable = []\<rparr>" "0x41"]
  by (simp add: ascii_table_nth of_nat_eq_numeral_32)

text \<open>
  C2 as stated fails on \<open>ascii_table\<close>: code \<open>FF\<close> has the null code point, and the reverse
  table has it: \<open>tryGetCharCode\<close> on \<open>U+0000\<close> returns true with code \<open>FF\<close>. And code \<open>2D\<close>
  has a code point that is not null, for which \<open>tryGetCharCode\<close> returns code \<open>AD\<close>.
\<close>

theorem C2_null_entry_counterexample:
  "ascii_table ! 0xFF = 0
   \<and> PdfBuiltInEncoding_tryGetCharCode \<lparr>GetToUnicodeTable = ascii_table, m_EncodingTable = []\<rparr> 0
       = (True, \<lparr>Code = 0xFF, CodeSpaceSize = 1\<rparr>,
          initEncodingTable \<lparr>GetToUnicodeTable = ascii_table, m_EncodingTable = []\<rparr>)
   \<and> ascii_table ! 0x2D = 0x2D
   \<and> PdfBuiltInEncoding_tryGetCharCode \<lparr>GetToUnicodeTable = ascii_table, m_EncodingTable = []\<rparr> 0x2D
       = (True, \<lparr>Code = 0xAD, CodeSpaceSize = 1\<rparr>,
          initEncodingTable \<lparr>GetToUnicodeTable = ascii_table, m_EncodingTable = []\<rparr>)"
  using tryGetCharCode_last [of "\<lparr>GetToUnicodeTable = ascii_table, m_EncodingTable = []\<rparr>" "0xFF" 0]
    tryGetCharCode_last [of "\<lparr>GetToUnicodeTable = ascii_table, m_EncodingTable = []\<rparr>" "0xAD" "0x2D"]
  by (simp add: ascii_table_nth)

lemma tryGetNextCodePoints_loop_char:
  assumes max: "unat (MaxCodeSize lim) < 255"
  shows "whole = pre @ bs \<Longrightarrow> length pre \<le> unat (MaxCodeSize lim) \<Longrightarrow>
     (tryGetNextCodePoints_loop tg lim bs (code_of_bytes pre) (of_nat (Suc (length pre))) = Some (rest, cu, cps))
       = (\<exists>n. length pre < n \<and> n \<le> length whole
             \<and> unat (MinCodeSize lim) \<le> n \<and> n \<le> unat (MaxCodeSize lim)
             \<and> cu = codeUnit_at whole n \<and> tg cu = Some cps \<and> rest = drop n whole
             \<and> (\<forall>m. length pre < m \<and> m < n \<and> unat (MinCodeSize lim) \<le> m \<longrightarrow> tg (codeUnit_at whole m) = None))"
proof (induction bs arbitrary: pre)
  case Nil
  then show ?case by auto
next
  case (Cons b bs)
  let ?p = "Suc (length pre)"
  define R where "R q = (\<exists>n. q < n \<and> n \<le> length whole
             \<and> unat (MinCodeSize lim) \<le> n \<and> n \<le> unat (MaxCodeSize lim)
             \<and> cu = codeUnit_at whole n \<and> tg cu = Some cps \<and> rest = drop n whole
             \<and> (\<forall>m. q < m \<and> m < n \<and> unat (MinCodeSize lim) \<le> m \<longrightarrow> tg (codeUnit_at whole m) = None))" for q
  have p255: "?p < 256" using Cons.prems(2) max by simp
  have i: "unat (of_nat ?p :: 8 word) = ?p"
    using p255 by (simp only: unat_of_nat) simp
  have gt: "(MaxCodeSize lim < of_nat ?p) = (unat (MaxCodeSize lim) < ?p)"
    by (simp only: word_less_nat_alt i)
  have lt: "((of_nat ?p :: 8 word) < MinCodeSize lim) = (?p < unat (MinCodeSize lim))"
    by (simp only: word_less_nat_alt i)
  have whole': "whole = (pre @ [b]) @ bs" using Cons.prems(1) by simp
  have code': "push_bit 8 (code_of_bytes pre) OR ucast b = code_of_bytes (pre @ [b])"
    by (simp add: code_of_bytes_def)
  have cu_p: "\<lparr>Code = code_of_bytes (pre @ [b]), CodeSpaceSize = of_nat ?p\<rparr> = codeUnit_at whole ?p"
    using Cons.prems(1) by (simp add: codeUnit_at_def)
  have inc: "(of_nat ?p :: 8 word) + 1 = of_nat (Suc (length (pre @ [b])))" by simp
  have drop_p: "drop ?p whole = bs" using Cons.prems(1) by simp
  have len: "?p \<le> length whole" using Cons.prems(1) by simp
  show ?case
  proof (cases "?p \<le> unat (MaxCodeSize lim)")
    case False
    then have "tryGetNextCodePoints_loop tg lim (b # bs) (code_of_bytes pre) (of_nat ?p) = None"
      using gt by (simp del: of_nat_add of_nat_Suc)
    moreover have "\<not> R (length pre)" using False by (auto simp: R_def)
    ultimately show ?thesis by (simp add: R_def)
  next
    case inMax: True
    show ?thesis
    proof (cases "unat (MinCodeSize lim) \<le> ?p \<and> tg (codeUnit_at whole ?p) \<noteq> None")
      case True
      then obtain cps1 where cps1: "tg (codeUnit_at whole ?p) = Some cps1" by blast
      have "tryGetNextCodePoints_loop tg lim (b # bs) (code_of_bytes pre) (of_nat ?p)
              = Some (bs, codeUnit_at whole ?p, cps1)"
        using inMax True cps1 gt lt
        by (simp add: Let_def code' cu_p del: of_nat_add of_nat_Suc)
      moreover have "R (length pre) = (rest = bs \<and> cu = codeUnit_at whole ?p \<and> cps = cps1)"
      proof
        assume "R (length pre)"
        then obtain n where n: "length pre < n" "cu = codeUnit_at whole n" "tg cu = Some cps"
            "rest = drop n whole"
            "\<forall>m. length pre < m \<and> m < n \<and> unat (MinCodeSize lim) \<le> m \<longrightarrow> tg (codeUnit_at whole m) = None"
          unfolding R_def by blast
        have "n = ?p"
        proof (rule ccontr)
          assume "n \<noteq> ?p"
          with n(1) have "length pre < ?p \<and> ?p < n" by simp
          with n(5) True have "tg (codeUnit_at whole ?p) = None" by blast
          with cps1 show False by simp
        qed
        with n cps1 drop_p show "rest = bs \<and> cu = codeUnit_at whole ?p \<and> cps = cps1" by simp
      next
        assume a: "rest = bs \<and> cu = codeUnit_at whole ?p \<and> cps = cps1"
        show "R (length pre)"
          unfolding R_def
          by (rule exI[of _ ?p]) (use a True inMax cps1 drop_p len in auto)
      qed
      ultimately show ?thesis by (auto simp: R_def)
    next
      case False
      then have "tryGetNextCodePoints_loop tg lim (b # bs) (code_of_bytes pre) (of_nat ?p)
              = tryGetNextCodePoints_loop tg lim bs (code_of_bytes (pre @ [b])) (of_nat (Suc (length (pre @ [b]))))"
        using inMax gt lt
        by (auto simp add: Let_def code' cu_p inc simp del: of_nat_add of_nat_Suc split: option.splits)
      moreover have "(tryGetNextCodePoints_loop tg lim bs (code_of_bytes (pre @ [b])) (of_nat (Suc (length (pre @ [b]))))
                        = Some (rest, cu, cps)) = R (length (pre @ [b]))"
        unfolding R_def using whole' inMax by (intro Cons.IH) simp_all
      moreover have "R (length (pre @ [b])) = R (length pre)"
      proof
        assume "R (length (pre @ [b]))"
        then obtain n where n: "?p < n" "n \<le> length whole"
            "unat (MinCodeSize lim) \<le> n" "n \<le> unat (MaxCodeSize lim)"
            "cu = codeUnit_at whole n" "tg cu = Some cps" "rest = drop n whole"
            "\<forall>m. ?p < m \<and> m < n \<and> unat (MinCodeSize lim) \<le> m \<longrightarrow> tg (codeUnit_at whole m) = None"
          unfolding R_def by auto
        have "\<forall>m. length pre < m \<and> m < n \<and> unat (MinCodeSize lim) \<le> m \<longrightarrow> tg (codeUnit_at whole m) = None"
        proof (intro allI impI)
          fix m assume m: "length pre < m \<and> m < n \<and> unat (MinCodeSize lim) \<le> m"
          show "tg (codeUnit_at whole m) = None"
          proof (cases "m = ?p")
            case True
            with m False show ?thesis by auto
          next
            case False
            with m have "?p < m" by simp
            with m n(8) show ?thesis by blast
          qed
        qed
        with n show "R (length pre)"
          unfolding R_def by (intro exI[of _ n]) simp
      next
        assume "R (length pre)"
        then obtain n where n: "length pre < n" "n \<le> length whole"
            "unat (MinCodeSize lim) \<le> n" "n \<le> unat (MaxCodeSize lim)"
            "cu = codeUnit_at whole n" "tg cu = Some cps" "rest = drop n whole"
            "\<forall>m. length pre < m \<and> m < n \<and> unat (MinCodeSize lim) \<le> m \<longrightarrow> tg (codeUnit_at whole m) = None"
          unfolding R_def by auto
        have "n \<noteq> ?p" using False n(3,5,6) by auto
        with n(1) have "?p < n" by simp
        with n show "R (length (pre @ [b]))"
          unfolding R_def by (intro exI[of _ n]) simp
      qed
      ultimately show ?thesis by (simp add: R_def)
    qed
  qed
qed


text \<open>
  C4. \<open>tryGetNextCodePoints\<close> takes the bytes of the input one at a time; the code made
  of the first \<open>n\<close> bytes is looked up once \<open>n\<close> has reached \<open>MinCodeSize\<close>, and the call
  succeeds at the first \<open>n\<close> whose lookup succeeds, with that char code, its code points
  and the iterator moved past exactly these \<open>n\<close> bytes. It fails when there is no such
  \<open>n\<close> up to \<open>MaxCodeSize\<close> and up to the length of the input. (The byte counter is an
  \<open>unsigned char\<close>: the statement is for \<open>MaxCodeSize\<close> below 255.) With the codespaces
  \<open>00-7F\<close> and \<open>8140-FEFE\<close>, the input \<open>81 40\<close> gives the two-byte code \<open>8140\<close> and both
  bytes are consumed.
\<close>

theorem C4_tryGetNextCodePoints:
  "(MaxCodeSize lim < 255 \<longrightarrow>
     (tryGetNextCodePoints tg lim bs = Some (rest, cu, cps))
       = (\<exists>n. 1 \<le> n \<and> n \<le> length bs
             \<and> unat (MinCodeSize lim) \<le> n \<and> n \<le> unat (MaxCodeSize lim)
             \<and> cu = codeUnit_at bs n \<and> tg cu = Some cps \<and> rest = drop n bs
             \<and> (\<forall>m. 1 \<le> m \<and> m < n \<and> unat (MinCodeSize lim) \<le> m \<longrightarrow> tg (codeUnit_at bs m) = None)))
   \<and> tryGetNextCodePoints two_codespaces_lookup two_codespaces_limits [0x81, 0x40]
       = Some ([], \<lparr>Code = 0x8140, CodeSpaceSize = 2\<rparr>, [0x8140])"
proof (intro conjI impI)
  assume "MaxCodeSize lim < 255"
  then have max: "unat (MaxCodeSize lim) < 255" by (simp add: word_less_nat_alt)
  have "(tryGetNextCodePoints_loop tg lim bs (code_of_bytes []) (of_nat (Suc (length ([]::8 word list))))
          = Some (rest, cu, cps))
       = (\<exists>n. length ([]::8 word list) < n \<and> n \<le> length bs
             \<and> unat (MinCodeSize lim) \<le> n \<and> n \<le> unat (MaxCodeSize lim)
             \<and> cu = codeUnit_at bs n \<and> tg cu = Some cps \<and> rest = drop n bs
             \<and> (\<forall>m. length ([]::8 word list) < m \<and> m < n \<and> unat (MinCodeSize lim) \<le> m \<longrightarrow> tg (codeUnit_at bs m) = None))"
    by (rule tryGetNextCodePoints_loop_char[OF max]) simp_all
  then show "(tryGetNextCodePoints tg lim bs = Some (rest, cu, cps))
       = (\<exists>n. 1 \<le> n \<and> n \<le> length bs
             \<and> unat (MinCodeSize lim) \<le> n \<and> n \<le> unat (MaxCodeSize lim)
             \<and> cu = codeUnit_at bs n \<and> tg cu = Some cps \<and> rest = drop n bs
             \<and> (\<forall>m. 1 \<le> m \<and> m < n \<and> unat (MinCodeSize lim) \<le> m \<longrightarrow> tg (codeUnit_at bs m) = None))"
    by (simp add: tryGetNextCodePoints_def code_of_bytes_def Suc_le_eq)
next
  show "tryGetNextCodePoints two_codespaces_lookup two_codespaces_limits [0x81, 0x40]
       = Some ([], \<lparr>Code = 0x8140, CodeSpaceSize = 2\<rparr>, [0x8140])"
    by (simp add: tryGetNextCodePoints_def two_codespaces_lookup_def two_codespaces_limits_def)
qed

theorem C4_tryGetNextCodePoints_witness:
  "MaxCodeSize two_codespaces_limits < 255
   \<and> (\<exists>n. 1 \<le> n \<and> n \<le> length [0x81, 0x40 :: 8 word]
         \<and> unat (MinCodeSize two_codespaces_limits) \<le> n \<and> n \<le> unat (MaxCodeSize two_codespaces_limits)
         \<and> \<lparr>Code = 0x8140, CodeSpaceSize = 2\<rparr> = codeUnit_at [0x81, 0x40] n
         \<and> two_codespaces_lookup \<lparr>Code = 0x8140, CodeSpaceSize = 2\<rparr> = Some [0x8140]
         \<and> [] = drop n [0x81, 0x40 :: 8 word]
         \<and> (\<forall>m. 1 \<le> m \<and> m < n \<and> unat (MinCodeSize two_codespaces_limits) \<le> m \<longrightarrow>
               two_codespaces_lookup (codeUnit_at [0x81, 0x40] m) = None))"
proof -
  have h: "MaxCodeSize two_codespaces_limits < 255"
    by (simp add: two_codespaces_limits_def)
  show ?thesis
    using h C4_tryGetNextCodePoints [of two_codespaces_limits two_codespaces_lookup "[0x81, 0x40]"
        "[]" "\<lparr>Code = 0x8140, CodeSpaceSize = 2\<rparr>" "[0x8140]"]
    by blast
qed

lemma AppendUTF16CodeTo_loop_append:
  "AppendUTF16CodeTo_loop u first cps (s @ t) = s @ AppendUTF16CodeTo_loop u first cps t"
  by (induction cps arbitrary: first t) simp_all

lemma AppendUTF16CodeTo_append:
  "AppendUTF16CodeTo u stream cps = stream @ AppendUTF16CodeTo u [] cps"
  using AppendUTF16CodeTo_loop_append[of u True cps stream "''<''"]
  by (simp add: AppendUTF16CodeTo_def)

lemma AppendToUnicodeEntries_loop_eq:
  assumes "unat lastCode < 2 ^ 32 - 1"
  shows "AppendToUnicodeEntries_loop u tg code lastCode stream
           = Some (stream @ concat (map (bfrange_entry u tg) (map of_nat [unat code..<Suc (unat lastCode)])))"
proof (induction "Suc (unat lastCode) - unat code" arbitrary: code stream)
  case 0
  then have "\<not> code \<le> lastCode" by (simp add: word_le_nat_alt)
  moreover have "[unat code..<Suc (unat lastCode)] = []" using 0 by simp
  ultimately show ?case
    by (subst AppendToUnicodeEntries_loop.simps) (simp del: upt_Suc)
next
  case (Suc n)
  then have le: "code \<le> lastCode" by (simp add: word_le_nat_alt)
  then have ule: "unat code \<le> unat lastCode" by (simp add: word_le_nat_alt)
  with assms have "unat code + 1 < 2 ^ 32" by simp
  then have next_code: "unat (code + 1) = Suc (unat code)"
    by (simp add: unat_word_ariths)
  with Suc have n: "n = Suc (unat lastCode) - unat (code + 1)" by simp
  have upt: "[unat code..<Suc (unat lastCode)] = unat code # [unat (code + 1)..<Suc (unat lastCode)]"
    using ule next_code by (simp add: upt_conv_Cons)
  show ?case
  proof (cases "tg (PdfCharCode_of u code)")
    case None
    then have "AppendToUnicodeEntries_loop u tg code lastCode stream
            = AppendToUnicodeEntries_loop u tg (code + 1) lastCode stream"
      using le by (subst AppendToUnicodeEntries_loop.simps) (simp add: TryGetCodePoints_def)
    also have "\<dots> = Some (stream @ concat (map (bfrange_entry u tg) (map of_nat [unat (code + 1)..<Suc (unat lastCode)])))"
      by (rule Suc.hyps(1)[OF n])
    finally show ?thesis
      using None by (simp add: upt bfrange_entry_def del: upt_Suc)
  next
    case (Some cps)
    then have "AppendToUnicodeEntries_loop u tg code lastCode stream
            = AppendToUnicodeEntries_loop u tg (code + 1) lastCode (AppendUTF16CodeTo u stream cps @ ''\<newline>'')"
      using le by (subst AppendToUnicodeEntries_loop.simps) (simp add: TryGetCodePoints_def)
    also have "\<dots> = Some ((AppendUTF16CodeTo u stream cps @ ''\<newline>'')
                 @ concat (map (bfrange_entry u tg) (map of_nat [unat (code + 1)..<Suc (unat lastCode)])))"
      by (rule Suc.hyps(1)[OF n])
    finally show ?thesis
      using Some AppendUTF16CodeTo_append[of u stream cps]
      by (simp add: upt bfrange_entry_def del: upt_Suc)
  qed
qed

text \<open>
  C3. \<open>PdfEncodingMapOneByte::AppendToUnicodeEntries\<close>, when its assertion holds
  (\<open>MaxCodeSize\<close> is 1) and the last code is below \<open>0xFFFFFFFF\<close> (so that the \<open>unsigned\<close>
  counter of the loop passes it), returns, and what it appends to the stream is one block:
  the line \<open>1 beginbfrange\<close>, the two ends of the range in hexadecimal, an opening
  bracket, then for each code from \<open>FirstChar\<close> to \<open>LastChar\<close> in order either nothing, when
  \<open>TryGetCodePoints\<close> fails, or one literal on a line of its own, and the closing bracket
  and \<open>endbfrange\<close>. The literal of a single code point is the hexadecimal text of the
  bytes of its UTF-16BE form between angle brackets.
\<close>

theorem C3_AppendToUnicodeEntries:
  assumes "MaxCodeSize limits = 1" and "Code (LastChar limits) < 0xFFFFFFFF"
  shows "AppendToUnicodeEntries u tg limits stream
           = Some (Inr (stream @ ''1 beginbfrange\<newline>''
                @ WriteHexTo u (FirstChar limits) @ '' '' @ WriteHexTo u (LastChar limits) @ '' [\<newline>''
                @ concat (map (bfrange_entry u tg)
                    (map of_nat [unat (Code (FirstChar limits))..<Suc (unat (Code (LastChar limits)))]))
                @ '']\<newline>'' @ ''endbfrange\<newline>''))
         \<and> (\<forall>code. tg (PdfCharCode_of u code) = None \<longrightarrow> bfrange_entry u tg code = [])
         \<and> (\<forall>code cp. tg (PdfCharCode_of u code) = Some [cp] \<longrightarrow>
               bfrange_entry u tg code
                 = ''<'' @ concat (map (\<lambda>b. [fst (WriteCharHexTo u b), snd (WriteCharHexTo u b)]) (WriteUtf16BETo u cp))
                     @ ''>\<newline>'')"
proof -
  have "unat (Code (LastChar limits)) < 2 ^ 32 - 1"
    using assms(2) by (simp add: word_less_nat_alt)
  then show ?thesis
    using assms(1)
    by (simp add: AppendToUnicodeEntries_def AppendToUnicodeEntries_loop_eq bfrange_entry_def
        AppendUTF16CodeTo_def case_prod_unfold del: upt_Suc)
qed


theorem C3_AppendToUnicodeEntries_witness:
  "MaxCodeSize \<lparr>MinCodeSize = 1, MaxCodeSize = 1,
        FirstChar = \<lparr>Code = 0x41, CodeSpaceSize = 1\<rparr>, LastChar = \<lparr>Code = 0x43, CodeSpaceSize = 1\<rparr>\<rparr> = 1
   \<and> Code (LastChar \<lparr>MinCodeSize = 1, MaxCodeSize = 1,
        FirstChar = \<lparr>Code = 0x41, CodeSpaceSize = 1\<rparr>, LastChar = \<lparr>Code = 0x43, CodeSpaceSize = 1\<rparr>\<rparr>) < 0xFFFFFFFF
   \<and> AppendToUnicodeEntries spec_utls (\<lambda>c. if Code c = 0x42 then None else Some [Code c])
        \<lparr>MinCodeSize = 1, MaxCodeSize = 1,
         FirstChar = \<lparr>Code = 0x41, CodeSpaceSize = 1\<rparr>, LastChar = \<lparr>Code = 0x43, CodeSpaceSize = 1\<rparr>\<rparr> []
       = Some (Inr ''1 beginbfrange\<newline><41> <43> [\<newline><0041>\<newline><0043>\<newline>]\<newline>endbfrange\<newline>'')"
  using C3_AppendToUnicodeEntries [of "\<lparr>MinCodeSize = 1, MaxCodeSize = 1,
         FirstChar = \<lparr>Code = 0x41, CodeSpaceSize = 1\<rparr>, LastChar = \<lparr>Code = 0x43, CodeSpaceSize = 1\<rparr>\<rparr>"
      spec_utls "\<lambda>c. if Code c = 0x42 then None else Some [Code c]" "[]"]
  by (simp add: bfrange_entry_def AppendUTF16CodeTo_def spec_utls_def spec_WriteHexTo_def
      spec_WriteUtf16BETo_def spec_WriteCharHexTo_def spec_PdfCharCode_of_def hex_byte_def hex_digit_def
      upt_conv_Cons Let_def del: upt_Suc)

section \<open>Properties of the signer identity\<close>

lemma unat_ucast_32_64: "unat (ucast (w :: 32 word) :: 64 word) = unat w"
proof -
  have "unat w < 2 ^ 32" using unsigned_less[of w, where ?'a = nat] by simp
  then have "unat w < 2 ^ 64" by simp
  then have "take_bit 64 (unat w) = unat w" by (simp only: take_bit_nat_eq_self)
  then show ?thesis by (simp add: unsigned_ucast_eq)
qed

lemma unat_ucast_16_32: "unat (ucast (w :: 16 word) :: 32 word) = unat w"
proof -
  have "unat w < 2 ^ 16" using unsigned_less[of w, where ?'a = nat] by simp
  then have "unat w < 2 ^ 32" by simp
  then have "take_bit 32 (unat w) = unat w" by (simp only: take_bit_nat_eq_self)
  then show ?thesis by (simp add: unsigned_ucast_eq)
qed

lemma push16_no_overflow: "unat (push_bit 16 (ucast (g :: 16 word) :: 32 word)) = push_bit 16 (unat g)"
proof -
  have "unat g < 2 ^ 16" using unsigned_less[of g, where ?'a = nat] by simp
  then have "push_bit 16 (unat g) < 2 ^ 32"
    by (simp add: push_bit_eq_mult)
  then have "take_bit 32 (push_bit 16 (unat g)) = push_bit 16 (unat g)"
    by (simp only: take_bit_nat_eq_self)
  then show ?thesis
    by (simp add: unsigned_push_bit_eq unat_ucast_16_32)
qed

lemma push24_no_overflow: "unat (push_bit 24 (ucast (s :: 32 word) :: 64 word)) = push_bit 24 (unat s)"
proof -
  have "unat s < 2 ^ 32" using unsigned_less[of s, where ?'a = nat] by simp
  then have "push_bit 24 (unat s) < 2 ^ 64"
    by (simp add: push_bit_eq_mult)
  then have "take_bit 64 (push_bit 24 (unat s)) = push_bit 24 (unat s)"
    by (simp only: take_bit_nat_eq_self)
  then show ?thesis
    by (simp add: unsigned_push_bit_eq unat_ucast_32_64)
qed

lemma PdfSignerId_hash_unat:
  "unat (PdfSignerId_hash id')
     = unat (ObjectNumber (m_SignatureRef id'))
         XOR push_bit 16 (unat (GenerationNumber (m_SignatureRef id')))
         XOR push_bit 24 (unat (m_SignerIndex id'))"
  by (simp only: PdfSignerId_hash_def unsigned_xor_eq unat_ucast_32_64 push16_no_overflow push24_no_overflow xor.assoc)

text \<open>
  C9. The hash of a \<open>PdfSignerId\<close> is the exclusive or of the object number, the
  generation number shifted left by 16 bits and the signer index shifted left by 24 bits,
  none of them truncated; \<open>operator==\<close> holds exactly when the signature references are
  equal and the signer indices are equal, which is when the two values are the same, and
  \<open>operator!=\<close> is its negation.
\<close>

theorem C9_PdfSignerId_hash_eq:
  "unat (PdfSignerId_hash id')
     = unat (ObjectNumber (m_SignatureRef id'))
         XOR unat (GenerationNumber (m_SignatureRef id')) * 2 ^ 16
         XOR unat (m_SignerIndex id') * 2 ^ 24
   \<and> PdfSignerId_eq a b = (PdfReference_eq (m_SignatureRef a) (m_SignatureRef b) \<and> m_SignerIndex a = m_SignerIndex b)
   \<and> PdfSignerId_eq a b = (a = b)
   \<and> PdfSignerId_ne a b = (\<not> PdfSignerId_eq a b)"
  by (auto simp: PdfSignerId_hash_unat push_bit_eq_mult PdfSignerId_eq_def PdfSignerId_ne_def PdfReference_eq_def)


theorem C9_PdfSignerId_hash_eq_witness:
  "unat (PdfSignerId_hash \<lparr>m_SignatureRef = \<lparr>ObjectNumber = 5, GenerationNumber = 1\<rparr>, m_SignerIndex = 2\<rparr>)
     = 33619973
   \<and> PdfSignerId_ne \<lparr>m_SignatureRef = \<lparr>ObjectNumber = 5, GenerationNumber = 1\<rparr>, m_SignerIndex = 2\<rparr>
        \<lparr>m_SignatureRef = \<lparr>ObjectNumber = 5, GenerationNumber = 1\<rparr>, m_SignerIndex = 3\<rparr>
   \<and> \<not> PdfSignerId_eq \<lparr>m_SignatureRef = \<lparr>ObjectNumber = 5, GenerationNumber = 1\<rparr>, m_SignerIndex = 2\<rparr>
        \<lparr>m_SignatureRef = \<lparr>ObjectNumber = 5, GenerationNumber = 1\<rparr>, m_SignerIndex = 3\<rparr>"
  using C9_PdfSignerId_hash_eq [of "\<lparr>m_SignatureRef = \<lparr>ObjectNumber = 5, GenerationNumber = 1\<rparr>, m_SignerIndex = 2\<rparr>"
      "\<lparr>m_SignatureRef = \<lparr>ObjectNumber = 5, GenerationNumber = 1\<rparr>, m_SignerIndex = 2\<rparr>"
      "\<lparr>m_SignatureRef = \<lparr>ObjectNumber = 5, GenerationNumber = 1\<rparr>, m_SignerIndex = 3\<rparr>"]
  by simp

end
